theory Spec2Isabelle
  imports Complex_Main "HOL-Library.Multiset" "HOL-Library.Sublist"
begin

section \<open>Number model\<close>

text \<open>
  Both invoice forms compute with JavaScript numbers. They are modelled as
  \<^typ>\<open>real\<close>: exact arithmetic on finite numbers. Rounding of IEEE doubles, NaN and the
  infinities are outside the model. Row ids are \<^typ>\<open>nat\<close>.

  The tax-invoice form coerces each numeric field with \<^verbatim>\<open>Number(x) || 0\<close>.
  On a number, \<^verbatim>\<open>Number\<close> is the identity and \<^verbatim>\<open>||\<close> replaces the falsy
  value 0 by its right operand.
\<close>

definition or_zero :: "real \<Rightarrow> real" where
  "or_zero x = (if x = 0 then 0 else x)"

section \<open>Tax-invoice form: data model\<close>

text \<open>The interface \<^verbatim>\<open>Item\<close>; the field \<^verbatim>\<open>id\<close> is named \<open>itemId\<close> here.\<close>

record Item =
  itemId :: nat
  code :: string
  desc :: string
  packSize :: string
  batchNo :: string
  qty :: real
  tp :: real
  mrp :: real
  discPercent :: real
  gstPercent :: real
  addGst :: real
  advTax :: real

text \<open>\<^verbatim>\<open>interface CalculatedItem extends Item\<close>\<close>

record CalculatedItem = Item +
  grossAmount :: real
  discAmt :: real
  gstAmt :: real
  netAmount :: real

text \<open>The accumulator object of \<^verbatim>\<open>totals\<close>.\<close>

record Totals =
  gross :: real
  disc :: real
  gst :: real
  addGstT :: real
  advTaxT :: real
  net :: real

section \<open>Tax-invoice form: calculations\<close>

text \<open>The body of the callback of \<^verbatim>\<open>items.map\<close> in \<^verbatim>\<open>calculatedItems\<close>.\<close>

definition calcItem :: "Item \<Rightarrow> CalculatedItem" where
  "calcItem item =
     (let qty' = or_zero (qty item);
          tp' = or_zero (tp item);
          discPercent' = or_zero (discPercent item);
          gstPercent' = or_zero (gstPercent item);
          addGst' = or_zero (addGst item);
          advTax' = or_zero (advTax item);
          grossAmount' = qty' * tp';
          discAmt' = (grossAmount' * discPercent') / 100;
          taxable = grossAmount' - discAmt';
          gstAmt' = (taxable * gstPercent') / 100;
          netAmount' = taxable + gstAmt' + addGst' + advTax'
      in Item.extend item (CalculatedItem.fields grossAmount' discAmt' gstAmt' netAmount'))"

definition calculatedItems :: "Item list \<Rightarrow> CalculatedItem list" where
  "calculatedItems its = map calcItem its"

text \<open>The reducer of \<^verbatim>\<open>totals\<close> and its left-to-right \<^verbatim>\<open>reduce\<close>.\<close>

definition totalsStep :: "Totals \<Rightarrow> CalculatedItem \<Rightarrow> Totals" where
  "totalsStep acc item =
     \<lparr> gross = gross acc + grossAmount item,
       disc = disc acc + discAmt item,
       gst = gst acc + gstAmt item,
       addGstT = addGstT acc + or_zero (addGst item),
       advTaxT = advTaxT acc + or_zero (advTax item),
       net = net acc + netAmount item \<rparr>"

definition zeroTotals :: Totals where
  "zeroTotals = \<lparr> gross = 0, disc = 0, gst = 0, addGstT = 0, advTaxT = 0, net = 0 \<rparr>"

definition totals :: "CalculatedItem list \<Rightarrow> Totals" where
  "totals xs = foldl totalsStep zeroTotals xs"

section \<open>Simple form (page.tsx): data model and calculations\<close>

text \<open>
  The interface \<^verbatim>\<open>Item\<close> of page.tsx. Its fields \<^verbatim>\<open>id\<close>, \<^verbatim>\<open>desc\<close>,
  \<^verbatim>\<open>qty\<close> and \<^verbatim>\<open>gstPercent\<close> carry the prefix \<open>p\<close> to keep them apart from
  the fields of the tax-invoice form.
\<close>

record PageItem =
  pId :: nat
  pDesc :: string
  pQty :: real
  price :: real
  discount :: real
  pGstPercent :: real

record PageCalculatedItem = PageItem +
  amount :: real
  pNetAmount :: real

record PageTotals =
  subTotal :: real
  discountT :: real
  total :: real

definition calcItem_page :: "PageItem \<Rightarrow> PageCalculatedItem" where
  "calcItem_page item =
     (let amount' = pQty item * price item;
          netAmount' = amount' - discount item
      in PageItem.extend item (PageCalculatedItem.fields amount' netAmount'))"

definition calculatedItems_page :: "PageItem list \<Rightarrow> PageCalculatedItem list" where
  "calculatedItems_page its = map calcItem_page its"

definition totalsStep_page :: "PageTotals \<Rightarrow> PageCalculatedItem \<Rightarrow> PageTotals" where
  "totalsStep_page acc item =
     \<lparr> subTotal = subTotal acc + amount item,
       discountT = discountT acc + discount item,
       total = total acc + pNetAmount item \<rparr>"

definition totals_page :: "PageCalculatedItem list \<Rightarrow> PageTotals" where
  "totals_page xs = foldl totalsStep_page \<lparr> subTotal = 0, discountT = 0, total = 0 \<rparr> xs"

section \<open>Tax-invoice form: items and focus\<close>

text \<open>
  The component holds two pieces of session state, \<^verbatim>\<open>items\<close> and
  \<^verbatim>\<open>focusPosition\<close>. Each handler is modelled as one transition on the pair: the state
  updates it requests, and the focus assignment it schedules with \<^verbatim>\<open>setTimeout(..., 0)\<close>,
  are applied in the order the handler issues them, the scheduled one last.
\<close>

record FocusPosition =
  rowId :: nat
  field :: string

record State =
  items :: "Item list"
  focusPosition :: FocusPosition

definition setItems :: "Item list \<Rightarrow> State \<Rightarrow> State" where
  "setItems its s = s\<lparr>items := its\<rparr>"

definition setFocusPosition :: "FocusPosition \<Rightarrow> State \<Rightarrow> State" where
  "setFocusPosition fp s = s\<lparr>focusPosition := fp\<rparr>"

text \<open>The object literal of a fresh row, written out three times in the source.\<close>

definition blankItem :: "nat \<Rightarrow> Item" where
  "blankItem n =
     \<lparr> itemId = n, code = '''', desc = '''', packSize = '''', batchNo = '''',
       qty = 1, tp = 0, mrp = 0, discPercent = 0, gstPercent = 0, addGst = 0, advTax = 0 \<rparr>"

definition initialState :: State where
  "initialState =
     \<lparr> items = [blankItem 1], focusPosition = \<lparr> rowId = 1, field = ''code'' \<rparr> \<rparr>"

text \<open>The constant \<^verbatim>\<open>fields\<close> of \<^verbatim>\<open>handleKeyDown\<close>: the tab order of a row.\<close>

definition fields :: "string list" where
  "fields = [''code'', ''desc'', ''packSize'', ''batchNo'', ''qty'', ''tp'', ''mrp'',
             ''discPercent'', ''gstPercent'', ''addGst'', ''advTax'']"

text \<open>\<^verbatim>\<open>Array.prototype.findIndex\<close> and \<^verbatim>\<open>indexOf\<close>: the first position, or -1.\<close>

primrec findIndex :: "('a \<Rightarrow> bool) \<Rightarrow> 'a list \<Rightarrow> int" where
  "findIndex p [] = - 1"
| "findIndex p (x # xs) =
     (if p x then 0 else (let r = findIndex p xs in if r < 0 then - 1 else r + 1))"

definition indexOf :: "'a list \<Rightarrow> 'a \<Rightarrow> int" where
  "indexOf xs x = findIndex (\<lambda>y. y = x) xs"

text \<open>
  \<^verbatim>\<open>handleItemChange(id, field, value)\<close>. The object spread
  \<^verbatim>\<open>{ ...item, [field]: value }\<close> is the argument \<open>upd\<close>, the update of one field of
  a row.
\<close>

definition handleItemChange :: "nat \<Rightarrow> (Item \<Rightarrow> Item) \<Rightarrow> State \<Rightarrow> State" where
  "handleItemChange rId upd s =
     setItems (map (\<lambda>item. if itemId item = rId then upd item else item) (items s)) s"

definition handleFieldFocus :: "nat \<Rightarrow> string \<Rightarrow> State \<Rightarrow> State" where
  "handleFieldFocus rId fld s =
     (if rowId (focusPosition s) \<noteq> rId \<or> field (focusPosition s) \<noteq> fld
      then setFocusPosition \<lparr> rowId = rId, field = fld \<rparr> s
      else s)"

text \<open>
  The constant \<^verbatim>\<open>newId\<close> of \<^verbatim>\<open>addItem\<close>. Every id is a number, so the filter
  \<^verbatim>\<open>typeof id === 'number' && !isNaN(id)\<close> keeps all of them.
\<close>

definition newId :: "Item list \<Rightarrow> nat" where
  "newId its =
     (let ids = map itemId its;
          maxId = (if length ids > 0 then Max (set ids) else 0)
      in maxId + 1)"

definition addItem :: "State \<Rightarrow> State" where
  "addItem s =
     (let n = newId (items s)
      in setFocusPosition \<lparr> rowId = n, field = ''code'' \<rparr>
           (setItems (items s @ [blankItem n]) s))"

text \<open>
  \<^verbatim>\<open>handleKeyDown(e, rowId, field)\<close>, with \<^verbatim>\<open>e.key\<close> as its first argument. The row
  id and the field are those of the input element the key event is delivered to.
\<close>

definition handleKeyDown :: "string \<Rightarrow> nat \<Rightarrow> string \<Rightarrow> State \<Rightarrow> State" where
  "handleKeyDown key rId fld s =
     (let currentIndex = indexOf fields fld in
      if key = ''Enter'' \<or> key = ''Tab'' then
        (if currentIndex < int (length fields) - 1
         then setFocusPosition \<lparr> rowId = rId, field = fields ! nat (currentIndex + 1) \<rparr> s
         else
           (let currentRowIndex = findIndex (\<lambda>item. itemId item = rId) (items s) in
            if currentRowIndex < int (length (items s)) - 1
            then (let nextRowId = itemId (items s ! nat (currentRowIndex + 1))
                  in setFocusPosition \<lparr> rowId = nextRowId, field = ''code'' \<rparr> s)
            else addItem s))
      else if key = ''ArrowUp'' \<or> key = ''ArrowDown'' then
        (let direction = (if key = ''ArrowDown'' then 1 else - 1);
             currentRowIndex = findIndex (\<lambda>item. itemId item = rId) (items s);
             newRowIndex = currentRowIndex + direction
         in if newRowIndex \<ge> 0 \<and> newRowIndex < int (length (items s))
            then (let newRowId = itemId (items s ! nat newRowIndex)
                  in setFocusPosition \<lparr> rowId = newRowId, field = fld \<rparr> s)
            else s)
      else s)"

text \<open>
  \<^verbatim>\<open>removeItem(id)\<close>. Reading \<^verbatim>\<open>newItems[0].id\<close> on an empty array throws a
  TypeError; that is the only failure of a handler.
\<close>

datatype error = TypeError

definition removeItem :: "nat \<Rightarrow> State \<Rightarrow> error + State" where
  "removeItem rId s =
     (if length (items s) \<le> 1
      then Inr (setFocusPosition \<lparr> rowId = 1, field = ''code'' \<rparr> (setItems [blankItem 1] s))
      else
        (let newItems = filter (\<lambda>item. itemId item \<noteq> rId) (items s) in
         if rowId (focusPosition s) = rId
         then (case newItems of
                 [] \<Rightarrow> Inl TypeError
               | first # _ \<Rightarrow>
                   Inr (setFocusPosition \<lparr> rowId = itemId first, field = ''code'' \<rparr>
                          (setItems newItems s)))
         else Inr (setItems newItems s)))"

text \<open>
  The states of a session: from the initial state, any finite sequence of add-row, remove-row,
  key, focus and edit events. Key and focus events reach the handlers from the input elements
  of the table, one per existing row and field, so their row id is that of a current row and
  their field is one of the tab order. The inputs edit the fields \<^verbatim>\<open>code\<close> to
  \<^verbatim>\<open>advTax\<close>, never \<^verbatim>\<open>id\<close>.
\<close>

inductive reachable :: "State \<Rightarrow> bool" where
  r_init: "reachable initialState"
| r_add: "reachable s \<Longrightarrow> reachable (addItem s)"
| r_remove: "reachable s \<Longrightarrow> removeItem rId s = Inr s' \<Longrightarrow> reachable s'"
| r_key: "reachable s \<Longrightarrow> rId \<in> set (map itemId (items s)) \<Longrightarrow> fld \<in> set fields
          \<Longrightarrow> reachable (handleKeyDown key rId fld s)"
| r_focus: "reachable s \<Longrightarrow> rId \<in> set (map itemId (items s)) \<Longrightarrow> fld \<in> set fields
          \<Longrightarrow> reachable (handleFieldFocus rId fld s)"
| r_change: "reachable s \<Longrightarrow> \<forall>item. itemId (upd item) = itemId item
          \<Longrightarrow> reachable (handleItemChange rId upd s)"

section \<open>Simple form (page.tsx): rows\<close>

text \<open>The item list starts empty; \<^verbatim>\<open>addItem\<close> and \<^verbatim>\<open>removeItem\<close> of page.tsx.\<close>

definition newId_page :: "PageItem list \<Rightarrow> nat" where
  "newId_page its = Max (set (map pId its @ [0])) + 1"

definition addItem_page :: "PageItem list \<Rightarrow> PageItem list" where
  "addItem_page its =
     its @ [\<lparr> pId = newId_page its, pDesc = '''', pQty = 1, price = 0, discount = 0,
              pGstPercent = 0 \<rparr>]"

definition removeItem_page :: "nat \<Rightarrow> PageItem list \<Rightarrow> PageItem list" where
  "removeItem_page rId its = filter (\<lambda>i. pId i \<noteq> rId) its"

inductive reachable_page :: "PageItem list \<Rightarrow> bool" where
  p_init: "reachable_page []"
| p_add: "reachable_page its \<Longrightarrow> reachable_page (addItem_page its)"
| p_remove: "reachable_page its \<Longrightarrow> reachable_page (removeItem_page rId its)"

section \<open>Amount in words (page.tsx)\<close>

definition words :: "string list" where
  "words = ['''', ''One'', ''Two'', ''Three'', ''Four'', ''Five'', ''Six'', ''Seven'', ''Eight'',
            ''Nine'', ''Ten'', ''Eleven'', ''Twelve'', ''Thirteen'', ''Fourteen'', ''Fifteen'',
            ''Sixteen'', ''Seventeen'', ''Eighteen'', ''Nineteen'']"

definition tens :: "string list" where
  "tens = ['''', '''', ''Twenty'', ''Thirty'', ''Forty'', ''Fifty'', ''Sixty'', ''Seventy'',
           ''Eighty'', ''Ninety'']"

text \<open>Reading an array at an integer: \<^verbatim>\<open>undefined\<close> (here \<open>None\<close>) out of range.\<close>

definition arrayGet :: "string list \<Rightarrow> int \<Rightarrow> string option" where
  "arrayGet xs n = (if 0 \<le> n \<and> n < int (length xs) then Some (xs ! nat n) else None)"

text \<open>A template literal prints \<^verbatim>\<open>undefined\<close> by name.\<close>

definition interpolate :: "string option \<Rightarrow> string" where
  "interpolate v = (case v of None \<Rightarrow> ''undefined'' | Some w \<Rightarrow> w)"

text \<open>
  The expression \<^verbatim>\<open>words[n] || `${tens[Math.floor(n / 10)]} ${words[n % 10]}`\<close>, used
  for the crore, lakh and thousand groups with n a positive integer: the empty string and
  \<^verbatim>\<open>undefined\<close> are falsy.
\<close>

definition groupWords :: "int \<Rightarrow> string" where
  "groupWords n =
     (case arrayGet words n of
        Some w \<Rightarrow>
          if w \<noteq> '''' then w
          else interpolate (arrayGet tens (n div 10)) @ '' '' @ interpolate (arrayGet words (n mod 10))
      | None \<Rightarrow>
          interpolate (arrayGet tens (n div 10)) @ '' '' @ interpolate (arrayGet words (n mod 10)))"

text \<open>The remainder operator \<^verbatim>\<open>%\<close> on numbers: the sign of the dividend.\<close>

definition jsTrunc :: "real \<Rightarrow> int" where
  "jsTrunc x = (if x \<ge> 0 then \<lfloor>x\<rfloor> else \<lceil>x\<rceil>)"

definition jsMod :: "real \<Rightarrow> real \<Rightarrow> real" where
  "jsMod a b = a - b * of_int (jsTrunc (a / b))"

text \<open>\<^verbatim>\<open>Math.round\<close>: the nearest integer, halves upwards.\<close>

definition mathRound :: "real \<Rightarrow> int" where
  "mathRound x = \<lfloor>x + 1 / 2\<rfloor>"

text \<open>The decimal digits of a natural number, as \<^verbatim>\<open>${paisa}\<close> prints them.\<close>

fun showNat :: "nat \<Rightarrow> string" where
  "showNat n =
     (if n < 10 then [char_of (48 + n)]
      else showNat (n div 10) @ [char_of (48 + n mod 10)])"

definition amountInWords :: "real \<Rightarrow> string" where
  "amountInWords amt =
     (if amt = 0 then ''Zero Rupees Only''
      else
        (let crores = \<lfloor>amt / 10000000\<rfloor>;
             lakhs = \<lfloor>jsMod amt 10000000 / 100000\<rfloor>;
             thousands = \<lfloor>jsMod amt 100000 / 1000\<rfloor>;
             hundreds = \<lfloor>jsMod amt 1000 / 100\<rfloor>;
             tensAndOnes = \<lfloor>jsMod amt 100\<rfloor>;
             r0 = ''Rupees '';
             r1 = (if crores > 0 then r0 @ groupWords crores @ '' Crore '' else r0);
             r2 = (if lakhs > 0 then r1 @ groupWords lakhs @ '' Lakh '' else r1);
             r3 = (if thousands > 0 then r2 @ groupWords thousands @ '' Thousand '' else r2);
             r4 = (if hundreds > 0 then r3 @ interpolate (arrayGet words hundreds) @ '' Hundred ''
                   else r3);
             r5 = (if tensAndOnes > 0
                   then (if tensAndOnes < 20
                         then r4 @ interpolate (arrayGet words tensAndOnes) @ '' ''
                         else r4 @ interpolate (arrayGet tens (tensAndOnes div 10)) @ '' ''
                                 @ interpolate (arrayGet words (tensAndOnes mod 10)) @ '' '')
                   else r4);
             paisa = mathRound ((amt - of_int \<lfloor>amt\<rfloor>) * 100);
             r6 = (if paisa > 0 then r5 @ ''and '' @ showNat (nat paisa) @ ''/100'' else r5)
         in r6 @ '' Only''))"

section \<open>Session invariant\<close>

text \<open>
  What every state of a session satisfies: at least one row, pairwise different positive row
  ids, and a focus position that names a current row and a field of the tab order.
\<close>

definition invariant :: "State \<Rightarrow> bool" where
  "invariant s \<longleftrightarrow>
     items s \<noteq> [] \<and> distinct (map itemId (items s)) \<and>
     (\<forall>i \<in> set (map itemId (items s)). 0 < i) \<and>
     rowId (focusPosition s) \<in> set (map itemId (items s)) \<and>
     field (focusPosition s) \<in> set fields"

section \<open>Calculations: auxiliary facts\<close>

lemma or_zero_id: "or_zero x = x" by (simp add: or_zero_def)

lemma calcItem_fields:
  "grossAmount (calcItem i) = qty i * tp i"
  "discAmt (calcItem i) = (qty i * tp i * discPercent i) / 100"
  "gstAmt (calcItem i) = ((qty i * tp i - (qty i * tp i * discPercent i) / 100) * gstPercent i) / 100"
  "netAmount (calcItem i) =
     (qty i * tp i - (qty i * tp i * discPercent i) / 100)
     + ((qty i * tp i - (qty i * tp i * discPercent i) / 100) * gstPercent i) / 100
     + addGst i + advTax i"
  by (simp_all add: calcItem_def Let_def or_zero_id Item.extend_def CalculatedItem.fields_def)

lemma calcItem_inputs:
  "addGst (calcItem i) = addGst i"
  "advTax (calcItem i) = advTax i"
  by (simp_all add: calcItem_def Let_def Item.extend_def CalculatedItem.fields_def)

lemma calcItem_page_fields:
  "amount (calcItem_page i) = pQty i * price i"
  "pNetAmount (calcItem_page i) = pQty i * price i - discount i"
  by (simp_all add: calcItem_page_def Let_def PageItem.extend_def PageCalculatedItem.fields_def)

lemma foldl_totalsStep:
  "foldl totalsStep acc xs =
     \<lparr> gross = gross acc + sum_list (map grossAmount xs),
       disc = disc acc + sum_list (map discAmt xs),
       gst = gst acc + sum_list (map gstAmt xs),
       addGstT = addGstT acc + sum_list (map addGst xs),
       advTaxT = advTaxT acc + sum_list (map advTax xs),
       net = net acc + sum_list (map netAmount xs) \<rparr>"
  by (induction xs arbitrary: acc) (simp_all add: totalsStep_def or_zero_id add.assoc)

lemma totals_sums:
  "totals xs =
     \<lparr> gross = sum_list (map grossAmount xs),
       disc = sum_list (map discAmt xs),
       gst = sum_list (map gstAmt xs),
       addGstT = sum_list (map addGst xs),
       advTaxT = sum_list (map advTax xs),
       net = sum_list (map netAmount xs) \<rparr>"
  by (simp add: totals_def foldl_totalsStep zeroTotals_def)


lemma list_all2_map_eq:
  "list_all2 (\<lambda>a b. g a = g b) xs ys \<Longrightarrow> map g xs = map g ys"
  by (induction rule: list_all2_induct) simp_all

lemma calcItem_mrp:
  assumes "b = a\<lparr>mrp := m\<rparr>"
  shows "grossAmount (calcItem b) = grossAmount (calcItem a)"
    "discAmt (calcItem b) = discAmt (calcItem a)"
    "gstAmt (calcItem b) = gstAmt (calcItem a)"
    "netAmount (calcItem b) = netAmount (calcItem a)"
    "addGst (calcItem b) = addGst (calcItem a)"
    "advTax (calcItem b) = advTax (calcItem a)"
  using assms by (simp_all add: calcItem_fields calcItem_inputs)

section \<open>Items and focus: auxiliary facts\<close>

lemma findIndex_range: "- 1 \<le> findIndex p xs \<and> findIndex p xs < int (length xs)"
  by (induction xs) (auto simp: Let_def)




lemma newId_fresh: "i \<in> set (map itemId its) \<Longrightarrow> i < newId its"
proof -
  assume a: "i \<in> set (map itemId its)"
  then have "its \<noteq> []" by auto
  moreover have "i \<le> Max (set (map itemId its))" using a by (intro Max_ge) auto
  ultimately show ?thesis by (simp add: newId_def Let_def)
qed

lemma newId_pos: "0 < newId its" by (simp add: newId_def Let_def)

lemma code_in_fields: "''code'' \<in> set fields" by (simp add: fields_def)

lemma invariant_initial: "invariant initialState"
  by (simp add: invariant_def initialState_def blankItem_def code_in_fields)

lemma invariant_focus:
  "invariant s \<Longrightarrow> r \<in> set (map itemId (items s)) \<Longrightarrow> f \<in> set fields
   \<Longrightarrow> invariant (setFocusPosition \<lparr> rowId = r, field = f \<rparr> s)"
  by (simp add: invariant_def setFocusPosition_def)

lemma invariant_addItem: "invariant s \<Longrightarrow> invariant (addItem s)"
proof -
  assume inv: "invariant s"
  have fresh: "newId (items s) \<notin> set (map itemId (items s))"
    using newId_fresh[of "newId (items s)" "items s"] by auto
  show ?thesis
    using inv fresh newId_pos[of "items s"]
    by (simp add: invariant_def addItem_def Let_def setFocusPosition_def setItems_def
        blankItem_def code_in_fields)
qed

lemma invariant_handleFieldFocus:
  "invariant s \<Longrightarrow> r \<in> set (map itemId (items s)) \<Longrightarrow> f \<in> set fields
   \<Longrightarrow> invariant (handleFieldFocus r f s)"
  by (simp add: handleFieldFocus_def invariant_focus)

lemma nth_itemId_mem:
  "0 \<le> k \<Longrightarrow> k < int (length its) \<Longrightarrow> itemId (its ! nat k) \<in> set (map itemId its)"
  by (simp add: nat_less_iff)

lemma handleKeyDown_advance:
  assumes "key = ''Enter'' \<or> key = ''Tab''"
  shows "handleKeyDown key r f s =
     (if indexOf fields f < int (length fields) - 1
      then setFocusPosition \<lparr> rowId = r, field = fields ! nat (indexOf fields f + 1) \<rparr> s
      else if findIndex (\<lambda>item. itemId item = r) (items s) < int (length (items s)) - 1
      then setFocusPosition
             \<lparr> rowId = itemId (items s ! nat (findIndex (\<lambda>item. itemId item = r) (items s) + 1)),
               field = ''code'' \<rparr> s
      else addItem s)"
  unfolding handleKeyDown_def Let_def using assms by (simp only: if_True)

lemma handleKeyDown_arrow:
  assumes "\<not> (key = ''Enter'' \<or> key = ''Tab'')" "key = ''ArrowUp'' \<or> key = ''ArrowDown''"
  shows "handleKeyDown key r f s =
     (if findIndex (\<lambda>item. itemId item = r) (items s) + (if key = ''ArrowDown'' then 1 else - 1) \<ge> 0 \<and>
         findIndex (\<lambda>item. itemId item = r) (items s) + (if key = ''ArrowDown'' then 1 else - 1)
           < int (length (items s))
      then setFocusPosition
             \<lparr> rowId = itemId (items s ! nat (findIndex (\<lambda>item. itemId item = r) (items s)
                                + (if key = ''ArrowDown'' then 1 else - 1))),
               field = f \<rparr> s
      else s)"
  unfolding handleKeyDown_def Let_def using assms by (simp only: if_True if_False)

lemma handleKeyDown_other:
  assumes "\<not> (key = ''Enter'' \<or> key = ''Tab'')" "\<not> (key = ''ArrowUp'' \<or> key = ''ArrowDown'')"
  shows "handleKeyDown key r f s = s"
  unfolding handleKeyDown_def Let_def using assms by (simp only: if_False)

lemma invariant_handleKeyDown:
  assumes inv: "invariant s" and r: "r \<in> set (map itemId (items s))" and f: "f \<in> set fields"
  shows "invariant (handleKeyDown key r f s)"
proof -
  let ?ci = "indexOf fields f"
  let ?ri = "findIndex (\<lambda>item. itemId item = r) (items s)"
  have ci: "- 1 \<le> ?ci" unfolding indexOf_def using findIndex_range[of "\<lambda>y. y = f" fields] by simp
  have ri: "- 1 \<le> ?ri" using findIndex_range[of "\<lambda>item. itemId item = r" "items s"] by simp
  have next_field: "fields ! nat (?ci + 1) \<in> set fields" if "?ci < int (length fields) - 1"
    using that ci by (intro nth_mem) (simp add: nat_less_iff)
  have next_row: "itemId (items s ! nat (?ri + 1)) \<in> set (map itemId (items s))"
    if "?ri < int (length (items s)) - 1"
    using that ri by (intro nth_itemId_mem) simp_all
  consider (advance) "key = ''Enter'' \<or> key = ''Tab''"
    | (arrow) "\<not> (key = ''Enter'' \<or> key = ''Tab'')" "key = ''ArrowUp'' \<or> key = ''ArrowDown''"
    | (other) "\<not> (key = ''Enter'' \<or> key = ''Tab'')" "\<not> (key = ''ArrowUp'' \<or> key = ''ArrowDown'')"
    by blast
  then show ?thesis
  proof cases
    case advance
    show ?thesis
      unfolding handleKeyDown_advance[OF advance]
      using inv r next_field next_row
      by (simp add: invariant_focus invariant_addItem code_in_fields)
  next
    case arrow
    let ?d = "if key = ''ArrowDown'' then 1 else - 1 :: int"
    have "itemId (items s ! nat (?ri + ?d)) \<in> set (map itemId (items s))"
      if "0 \<le> ?ri + ?d \<and> ?ri + ?d < int (length (items s))"
      using that by (intro nth_itemId_mem) simp_all
    then show ?thesis
      unfolding handleKeyDown_arrow[OF arrow]
      using inv f by (simp add: invariant_focus)
  next
    case other
    show ?thesis unfolding handleKeyDown_other[OF other] by (rule inv)
  qed
qed

lemma filter_itemId_nonempty:
  assumes "distinct (map itemId its)" "2 \<le> length its"
  shows "filter (\<lambda>item. itemId item \<noteq> r) its \<noteq> []"
proof
  assume "filter (\<lambda>item. itemId item \<noteq> r) its = []"
  then have "\<forall>x \<in> set its. itemId x = r" by (simp add: filter_empty_conv)
  then have "set (map itemId its) \<subseteq> {r}" by auto
  then have "card (set (map itemId its)) \<le> card {r}" by (intro card_mono) simp_all
  then have "card (set (map itemId its)) \<le> 1" by simp
  moreover have "card (set (map itemId its)) = length its"
    using assms(1) by (metis distinct_card length_map)
  ultimately show False using assms(2) by simp
qed

lemma invariant_removeItem:
  assumes inv: "invariant s" and rm: "removeItem r s = Inr s'"
  shows "invariant s'"
proof (cases "length (items s) \<le> 1")
  case True
  then have "s' = setFocusPosition \<lparr> rowId = 1, field = ''code'' \<rparr> (setItems [blankItem 1] s)"
    using rm by (simp add: removeItem_def)
  then show ?thesis
    by (simp add: invariant_def setFocusPosition_def setItems_def blankItem_def code_in_fields)
next
  case False
  let ?new = "filter (\<lambda>item. itemId item \<noteq> r) (items s)"
  have d: "distinct (map itemId ?new)" using inv by (simp add: invariant_def distinct_map_filter)
  have pos: "\<forall>i \<in> set (map itemId ?new). 0 < i" using inv by (auto simp: invariant_def)
  have ne: "?new \<noteq> []" using inv False by (intro filter_itemId_nonempty) (simp_all add: invariant_def)
  show ?thesis
  proof (cases "rowId (focusPosition s) = r")
    case True
    obtain first rest where new: "?new = first # rest" using ne by (cases ?new) auto
    then have s': "s' = setFocusPosition \<lparr> rowId = itemId first, field = ''code'' \<rparr> (setItems ?new s)"
      using rm False True by (simp add: removeItem_def Let_def)
    have "itemId first \<in> set (map itemId ?new)" using new by simp
    then show ?thesis using d pos ne unfolding s'
      by (simp add: invariant_def setFocusPosition_def setItems_def code_in_fields)
  next
    case nf: False
    then have s': "s' = setItems ?new s" using rm False by (simp add: removeItem_def Let_def)
    have "rowId (focusPosition s) \<in> set (map itemId ?new)" using inv nf by (auto simp: invariant_def)
    then show ?thesis using d pos ne inv unfolding s'
      by (simp add: invariant_def setItems_def)
  qed
qed

lemma invariant_handleItemChange:
  assumes inv: "invariant s" and upd: "\<forall>item. itemId (upd item) = itemId item"
  shows "invariant (handleItemChange r upd s)"
proof -
  have "map itemId (map (\<lambda>item. if itemId item = r then upd item else item) (items s))
      = map itemId (items s)"
    using upd by (induction "items s") (simp_all add: comp_def)
  then show ?thesis
    using inv
    by (simp add: invariant_def handleItemChange_def setItems_def del: map_map set_map)
qed

lemma reachable_invariant: "reachable s \<Longrightarrow> invariant s"
  by (induction rule: reachable.induct)
    (auto intro: invariant_initial invariant_addItem invariant_removeItem
      invariant_handleKeyDown invariant_handleFieldFocus invariant_handleItemChange)

lemma hd_fields: "hd fields = ''code''" by (simp add: fields_def)



lemma items_addItem: "items (addItem s) = items s @ [blankItem (newId (items s))]"
  by (simp add: addItem_def Let_def setFocusPosition_def setItems_def)


section \<open>Simple form: auxiliary facts\<close>

lemma newId_page_fresh: "i \<in> set (map pId its) \<Longrightarrow> i < newId_page its"
proof -
  assume "i \<in> set (map pId its)"
  then have "i \<le> Max (set (map pId its @ [0]))" by (intro Max_ge) auto
  then show ?thesis by (simp add: newId_page_def)
qed

lemma reachable_page_invariant:
  "reachable_page its \<Longrightarrow> distinct (map pId its) \<and> (\<forall>i \<in> set (map pId its). 0 < i)"
proof (induction rule: reachable_page.induct)
  case p_init
  show ?case by simp
next
  case (p_add its)
  have "newId_page its \<notin> set (map pId its)" using newId_page_fresh[of "newId_page its" its] by auto
  moreover have "0 < newId_page its" by (simp add: newId_page_def)
  ultimately show ?case using p_add.IH by (auto simp: addItem_page_def)
next
  case (p_remove its rId)
  then show ?case by (auto simp: removeItem_page_def distinct_map_filter)
qed

lemma foldl_totalsStep_page:
  "foldl totalsStep_page acc xs =
     \<lparr> subTotal = subTotal acc + sum_list (map amount xs),
       discountT = discountT acc + sum_list (map discount xs),
       total = total acc + sum_list (map pNetAmount xs) \<rparr>"
  by (induction xs arbitrary: acc) (simp_all add: totalsStep_page_def add.assoc)

section \<open>Line-item calculation\<close>

text \<open>
  Claim C1, amended. In the tax-invoice form, for every line item: the gross amount is
  quantity times unit price, the discount amount is the gross amount times the discount
  percentage over 100, the GST amount is the taxable amount (gross minus discount) times the
  GST percentage over 100, and the net amount is taxable amount plus GST amount plus
  additional GST plus advance tax; a row with quantity 2, unit price 100, discount 10 percent
  and GST 5 percent has gross 200, discount 20, taxable 180, GST 9 and net 189. In the simple
  form the amount is quantity times price and the net amount is the amount minus the discount,
  which is a flat sum; the GST percentage of a row enters no computed field there, and a row
  with quantity 2, price 100, discount 10 and GST 5 percent has amount 200 and net 190.
\<close>

theorem line_item_formulas:
  "grossAmount (calcItem i) = qty i * tp i \<and>
   discAmt (calcItem i) = grossAmount (calcItem i) * discPercent i / 100 \<and>
   gstAmt (calcItem i) = (grossAmount (calcItem i) - discAmt (calcItem i)) * gstPercent i / 100 \<and>
   netAmount (calcItem i) =
     (grossAmount (calcItem i) - discAmt (calcItem i)) + gstAmt (calcItem i) + addGst i + advTax i \<and>
   grossAmount (calcItem ((blankItem 1)\<lparr>qty := 2, tp := 100, discPercent := 10, gstPercent := 5\<rparr>)) = 200 \<and>
   discAmt (calcItem ((blankItem 1)\<lparr>qty := 2, tp := 100, discPercent := 10, gstPercent := 5\<rparr>)) = 20 \<and>
   grossAmount (calcItem ((blankItem 1)\<lparr>qty := 2, tp := 100, discPercent := 10, gstPercent := 5\<rparr>))
     - discAmt (calcItem ((blankItem 1)\<lparr>qty := 2, tp := 100, discPercent := 10, gstPercent := 5\<rparr>)) = 180 \<and>
   gstAmt (calcItem ((blankItem 1)\<lparr>qty := 2, tp := 100, discPercent := 10, gstPercent := 5\<rparr>)) = 9 \<and>
   netAmount (calcItem ((blankItem 1)\<lparr>qty := 2, tp := 100, discPercent := 10, gstPercent := 5\<rparr>)) = 189 \<and>
   amount (calcItem_page j) = pQty j * price j \<and>
   pNetAmount (calcItem_page j) = amount (calcItem_page j) - discount j \<and>
   amount (calcItem_page
     \<lparr> pId = 1, pDesc = '''', pQty = 2, price = 100, discount = 10, pGstPercent = 5 \<rparr>) = 200 \<and>
   pNetAmount (calcItem_page
     \<lparr> pId = 1, pDesc = '''', pQty = 2, price = 100, discount = 10, pGstPercent = 5 \<rparr>) = 190"
  by (simp add: calcItem_fields calcItem_page_fields blankItem_def)

text \<open>
  Claim C1 as stated fails on the simple form. Its row with quantity 2, price 100 and GST
  5 percent does not have net 189, neither with the discount field at 10 nor with a discount
  of 20, the sum that 10 percent of the gross would be.
\<close>

theorem simple_form_net_counterexample:
  "pNetAmount (calcItem_page
     \<lparr> pId = 1, pDesc = '''', pQty = 2, price = 100, discount = 10, pGstPercent = 5 \<rparr>) \<noteq> 189 \<and>
   pNetAmount (calcItem_page
     \<lparr> pId = 1, pDesc = '''', pQty = 2, price = 100, discount = 20, pGstPercent = 5 \<rparr>) \<noteq> 189"
  by (simp add: calcItem_page_fields)

section \<open>Focus navigation\<close>





text \<open>
  Claim C4. In every state whose row ids are pairwise different, as they are in every state
  of a session, removing a row succeeds and leaves at least one row. When the collection has
  at most one row it is reset to exactly one blank row, with id 1, and the focus moves to
  the first field of that row. Otherwise the rows with the removed id are dropped; when the
  removed row was focused, the focus moves to the first field of the first remaining row, and
  when it was not, the focus stays.
\<close>

theorem remove_keeps_row:
  assumes "distinct (map itemId (items s))"
  shows "\<exists>s'. removeItem r s = Inr s' \<and> items s' \<noteq> [] \<and>
     (length (items s) \<le> 1 \<longrightarrow>
        items s' = [blankItem 1] \<and> focusPosition s' = \<lparr> rowId = 1, field = hd fields \<rparr>) \<and>
     (1 < length (items s) \<longrightarrow> items s' = filter (\<lambda>item. itemId item \<noteq> r) (items s)) \<and>
     (rowId (focusPosition s) = r \<longrightarrow>
        focusPosition s' = \<lparr> rowId = itemId (hd (items s')), field = hd fields \<rparr>) \<and>
     (1 < length (items s) \<and> rowId (focusPosition s) \<noteq> r \<longrightarrow> focusPosition s' = focusPosition s)"
proof (cases "length (items s) \<le> 1")
  case True
  then have "removeItem r s =
      Inr (setFocusPosition \<lparr> rowId = 1, field = ''code'' \<rparr> (setItems [blankItem 1] s))"
    by (simp add: removeItem_def)
  with True show ?thesis
    by (simp add: setFocusPosition_def setItems_def hd_fields blankItem_def)
next
  case False
  let ?new = "filter (\<lambda>item. itemId item \<noteq> r) (items s)"
  have ne: "?new \<noteq> []" using assms False by (intro filter_itemId_nonempty) simp_all
  then obtain first rest where new: "?new = first # rest" by (cases ?new) auto
  show ?thesis
  proof (cases "rowId (focusPosition s) = r")
    case True
    have "removeItem r s =
        Inr (setFocusPosition \<lparr> rowId = itemId first, field = ''code'' \<rparr> (setItems ?new s))"
      using False True new by (simp add: removeItem_def Let_def)
    with False True new show ?thesis
      by (simp add: setFocusPosition_def setItems_def hd_fields)
  next
    case nf: False
    have "removeItem r s = Inr (setItems ?new s)"
      using False nf by (simp add: removeItem_def Let_def)
    with False nf ne show ?thesis
      by (simp add: setItems_def)
  qed
qed

text \<open>
  Instances: removing the focused row 2 of the rows 1 and 2 gives back the initial state,
  and removing the only row of the initial state resets it.
\<close>

theorem remove_keeps_row_witness:
  "distinct (map itemId (items (addItem initialState))) \<and>
   rowId (focusPosition (addItem initialState)) = 2 \<and>
   removeItem 2 (addItem initialState) = Inr initialState \<and>
   items initialState \<noteq> [] \<and>
   focusPosition initialState = \<lparr> rowId = itemId (hd (items initialState)), field = hd fields \<rparr> \<and>
   distinct (map itemId (items initialState)) \<and>
   length (items initialState) \<le> 1 \<and>
   removeItem 1 initialState = Inr initialState \<and>
   items initialState = [blankItem 1]"
proof -
  have d: "distinct (map itemId (items (addItem initialState)))" by code_simp
  have fo: "rowId (focusPosition (addItem initialState)) = 2" by code_simp
  have rm: "removeItem 2 (addItem initialState) = Inr initialState" by code_simp
  have d1: "distinct (map itemId (items initialState))" by code_simp
  have l1: "length (items initialState) \<le> 1" by code_simp
  have rm1: "removeItem 1 initialState = Inr initialState" by code_simp
  from remove_keeps_row[OF d, of 2] rm fo
  have a: "items initialState \<noteq> [] \<and>
    focusPosition initialState = \<lparr> rowId = itemId (hd (items initialState)), field = hd fields \<rparr>"
    by simp
  from remove_keeps_row[OF d1, of 1] rm1 l1
  have b: "items initialState = [blankItem 1]"
    by simp
  from d fo rm d1 l1 rm1 a b show ?thesis by blast
qed

section \<open>Invoice totals\<close>

text \<open>
  Claim C5. For every finite sequence of computed line items, the totals are the sums over the
  sequence of gross amount, discount amount, GST amount, additional GST, advance tax and net
  amount, field by field; on the empty sequence every total is 0.
\<close>

theorem totals_fieldwise_sums:
  "totals xs =
     \<lparr> gross = sum_list (map grossAmount xs),
       disc = sum_list (map discAmt xs),
       gst = sum_list (map gstAmt xs),
       addGstT = sum_list (map addGst xs),
       advTaxT = sum_list (map advTax xs),
       net = sum_list (map netAmount xs) \<rparr> \<and>
   totals [] = \<lparr> gross = 0, disc = 0, gst = 0, addGstT = 0, advTaxT = 0, net = 0 \<rparr>"
  by (simp add: totals_def foldl_totalsStep zeroTotals_def)

text \<open>
  The simple form sums its own three fields in the same way.
\<close>

lemma totals_page_sums:
  "totals_page xs =
     \<lparr> subTotal = sum_list (map amount xs),
       discountT = sum_list (map discount xs),
       total = sum_list (map pNetAmount xs) \<rparr>"
  by (simp add: totals_page_def foldl_totalsStep_page)



section \<open>Monotonicity of the net amount\<close>




section \<open>Row ids\<close>

text \<open>
  Claim C8, amended. In every state of a session of either form, the row ids are positive and
  pairwise different, and the id given to an added row is one more than the greatest id then
  in the collection (1 when it is empty), so it is greater than each of them; an id whose
  row has been removed can be given out again.
\<close>

theorem ids_unique_positive:
  "(reachable s \<longrightarrow>
      distinct (map itemId (items s)) \<and>
      (\<forall>i \<in> set (map itemId (items s)). 0 < i \<and> i < newId (items s)) \<and>
      map itemId (items (addItem s)) = map itemId (items s) @ [newId (items s)]) \<and>
   (reachable_page its \<longrightarrow>
      distinct (map pId its) \<and>
      (\<forall>i \<in> set (map pId its). 0 < i \<and> i < newId_page its) \<and>
      map pId (addItem_page its) = map pId its @ [newId_page its])"
proof (intro conjI impI)
  assume r: "reachable s"
  then have inv: "invariant s" by (rule reachable_invariant)
  show "distinct (map itemId (items s))" using inv by (simp add: invariant_def)
  show "\<forall>i \<in> set (map itemId (items s)). 0 < i \<and> i < newId (items s)"
    using inv newId_fresh[of _ "items s"] by (simp add: invariant_def)
  show "map itemId (items (addItem s)) = map itemId (items s) @ [newId (items s)]"
    by (simp add: items_addItem blankItem_def)
next
  assume r: "reachable_page its"
  show "distinct (map pId its)" using reachable_page_invariant[OF r] by simp
  show "\<forall>i \<in> set (map pId its). 0 < i \<and> i < newId_page its"
    using reachable_page_invariant[OF r] newId_page_fresh[of _ its] by simp
  show "map pId (addItem_page its) = map pId its @ [newId_page its]"
    by (simp add: addItem_page_def)
qed

text \<open>An instance: each form after one added row.\<close>

theorem ids_unique_positive_witness:
  "reachable (addItem initialState) \<and> reachable_page (addItem_page []) \<and>
   map itemId (items (addItem initialState)) = [1, 2] \<and>
   distinct (map itemId (items (addItem initialState))) \<and>
   1 < newId (items (addItem initialState)) \<and>
   2 < newId (items (addItem initialState)) \<and>
   map pId (addItem_page []) = [1] \<and>
   distinct (map pId (addItem_page [])) \<and>
   1 < newId_page (addItem_page [])"
proof -
  have r: "reachable (addItem initialState)" by (intro r_add r_init)
  have p: "reachable_page (addItem_page [])" by (intro p_add p_init)
  have m: "map itemId (items (addItem initialState)) = [1, 2]" by code_simp
  have n: "map pId (addItem_page []) = [1]" by code_simp
  note t = ids_unique_positive[of "addItem initialState" "addItem_page []"]
  from t r have d: "distinct (map itemId (items (addItem initialState)))" by blast
  from t r have "\<forall>i \<in> set (map itemId (items (addItem initialState))).
      0 < i \<and> i < newId (items (addItem initialState))"
    by blast
  then have b: "1 < newId (items (addItem initialState))" "2 < newId (items (addItem initialState))"
    unfolding m by simp_all
  from t p have e: "distinct (map pId (addItem_page []))" by blast
  from t p have "\<forall>i \<in> set (map pId (addItem_page [])). 0 < i \<and> i < newId_page (addItem_page [])"
    by blast
  then have c: "1 < newId_page (addItem_page [])"
    unfolding n by simp
  from r p m d b n e c show ?thesis by blast
qed

text \<open>
  Claim C8 as stated fails. In the tax-invoice form, adding a row to the initial state gives
  it id 2; removing that row leads back to the initial state, where the next added row gets
  id 2 again. In the simple form, the first row gets id 1; once it is removed the list is
  empty and the next row gets id 1 again.
\<close>

theorem id_reuse_counterexample:
  "map itemId (items (addItem initialState)) = [1, 2] \<and>
   removeItem 2 (addItem initialState) = Inr initialState \<and>
   newId (items initialState) = 2 \<and>
   map pId (addItem_page []) = [1] \<and>
   removeItem_page 1 (addItem_page []) = [] \<and>
   newId_page [] = 1"
  by code_simp

section \<open>Amount in words\<close>

text \<open>
  Claim C9. The amount 0 is written as the fixed phrase \<open>Zero Rupees Only\<close>; the phrases for
  1500, 100000 and 10000000 contain \<open>One Thousand Five Hundred\<close>, \<open>One Lakh\<close> and
  \<open>One Crore\<close>.
\<close>

theorem amountInWords_examples:
  "amountInWords 0 = ''Zero Rupees Only'' \<and>
   sublist ''One Thousand Five Hundred'' (amountInWords 1500) \<and>
   sublist ''One Lakh'' (amountInWords 100000) \<and>
   sublist ''One Crore'' (amountInWords 10000000)"
proof -
  have 0: "amountInWords 0 = ''Zero Rupees Only''" by (simp add: amountInWords_def)
  have "amountInWords 1500 = ''Rupees '' @ ''One Thousand Five Hundred'' @ ''  Only''"
    by code_simp
  then have 1: "sublist ''One Thousand Five Hundred'' (amountInWords 1500)"
    unfolding sublist_def by blast
  have "amountInWords 100000 = ''Rupees '' @ ''One Lakh'' @ ''  Only''"
    by code_simp
  then have 2: "sublist ''One Lakh'' (amountInWords 100000)"
    unfolding sublist_def by blast
  have "amountInWords 10000000 = ''Rupees '' @ ''One Crore'' @ ''  Only''"
    by code_simp
  then have 3: "sublist ''One Crore'' (amountInWords 10000000)"
    unfolding sublist_def by blast
  from 0 1 2 3 show ?thesis by blast
qed

section \<open>The field mrp\<close>

text \<open>
  Claim C10. When two item collections differ only in the field \<open>mrp\<close> of their items, the
  computed gross amount, discount amount, GST amount and net amount of each line agree, and
  so does every invoice total.
\<close>

theorem mrp_no_influence:
  assumes "list_all2 (\<lambda>a b. b = a\<lparr>mrp := mrp b\<rparr>) xs ys"
  shows "map (\<lambda>c. (grossAmount c, discAmt c, gstAmt c, netAmount c)) (calculatedItems xs) =
         map (\<lambda>c. (grossAmount c, discAmt c, gstAmt c, netAmount c)) (calculatedItems ys) \<and>
         totals (calculatedItems xs) = totals (calculatedItems ys)"
proof -
  have eq: "map (\<lambda>i. g (calcItem i)) xs = map (\<lambda>i. g (calcItem i)) ys"
    if "\<And>a m. g (calcItem (a\<lparr>mrp := m\<rparr>)) = g (calcItem a)" for g :: "CalculatedItem \<Rightarrow> real"
  proof (rule list_all2_map_eq)
    show "list_all2 (\<lambda>a b. g (calcItem a) = g (calcItem b)) xs ys"
      using assms by (rule list_all2_mono) (metis that)
  qed
  have g: "map (\<lambda>i. grossAmount (calcItem i)) xs = map (\<lambda>i. grossAmount (calcItem i)) ys"
    by (rule eq) (simp add: calcItem_mrp)
  have d: "map (\<lambda>i. discAmt (calcItem i)) xs = map (\<lambda>i. discAmt (calcItem i)) ys"
    by (rule eq) (simp add: calcItem_mrp)
  have t: "map (\<lambda>i. gstAmt (calcItem i)) xs = map (\<lambda>i. gstAmt (calcItem i)) ys"
    by (rule eq) (simp add: calcItem_mrp)
  have n: "map (\<lambda>i. netAmount (calcItem i)) xs = map (\<lambda>i. netAmount (calcItem i)) ys"
    by (rule eq) (simp add: calcItem_mrp)
  have a: "map (\<lambda>i. addGst (calcItem i)) xs = map (\<lambda>i. addGst (calcItem i)) ys"
    by (rule eq) (simp add: calcItem_mrp)
  have v: "map (\<lambda>i. advTax (calcItem i)) xs = map (\<lambda>i. advTax (calcItem i)) ys"
    by (rule eq) (simp add: calcItem_mrp)
  have len: "length xs = length ys" using assms by (rule list_all2_lengthD)
  have 1: "map (\<lambda>c. (grossAmount c, discAmt c, gstAmt c, netAmount c)) (calculatedItems xs) =
         map (\<lambda>c. (grossAmount c, discAmt c, gstAmt c, netAmount c)) (calculatedItems ys)"
  proof (rule nth_equalityI)
    show "length (map (\<lambda>c. (grossAmount c, discAmt c, gstAmt c, netAmount c)) (calculatedItems xs)) =
      length (map (\<lambda>c. (grossAmount c, discAmt c, gstAmt c, netAmount c)) (calculatedItems ys))"
      by (simp add: calculatedItems_def len)
  next
    fix k
    assume "k < length (map (\<lambda>c. (grossAmount c, discAmt c, gstAmt c, netAmount c))
                        (calculatedItems xs))"
    then have k: "k < length xs" "k < length ys" by (simp_all add: calculatedItems_def len)
    have yk: "ys ! k = (xs ! k)\<lparr>mrp := mrp (ys ! k)\<rparr>"
      using assms k by (simp add: list_all2_conv_all_nth)
    show "map (\<lambda>c. (grossAmount c, discAmt c, gstAmt c, netAmount c)) (calculatedItems xs) ! k =
      map (\<lambda>c. (grossAmount c, discAmt c, gstAmt c, netAmount c)) (calculatedItems ys) ! k"
      using k by (simp add: calculatedItems_def calcItem_mrp[OF yk])
  qed
  have 2: "totals (calculatedItems xs) = totals (calculatedItems ys)"
    by (simp add: totals_sums calculatedItems_def comp_def g d t n a v)
  from 1 2 show ?thesis by simp
qed

text \<open>An instance: one row with mrp 0 against the same row with mrp 250.\<close>

theorem mrp_no_influence_witness:
  "list_all2 (\<lambda>a b. b = a\<lparr>mrp := mrp b\<rparr>)
     [(blankItem 1)\<lparr>qty := 2, tp := 100, discPercent := 10, gstPercent := 5\<rparr>]
     [(blankItem 1)\<lparr>qty := 2, tp := 100, discPercent := 10, gstPercent := 5, mrp := 250\<rparr>] \<and>
   map (\<lambda>c. (grossAmount c, discAmt c, gstAmt c, netAmount c))
     (calculatedItems [(blankItem 1)\<lparr>qty := 2, tp := 100, discPercent := 10, gstPercent := 5\<rparr>]) =
   map (\<lambda>c. (grossAmount c, discAmt c, gstAmt c, netAmount c))
     (calculatedItems
        [(blankItem 1)\<lparr>qty := 2, tp := 100, discPercent := 10, gstPercent := 5, mrp := 250\<rparr>]) \<and>
   totals (calculatedItems [(blankItem 1)\<lparr>qty := 2, tp := 100, discPercent := 10, gstPercent := 5\<rparr>]) =
   totals (calculatedItems
        [(blankItem 1)\<lparr>qty := 2, tp := 100, discPercent := 10, gstPercent := 5, mrp := 250\<rparr>])"
proof -
  have h: "list_all2 (\<lambda>a b. b = a\<lparr>mrp := mrp b\<rparr>)
     [(blankItem 1)\<lparr>qty := 2, tp := 100, discPercent := 10, gstPercent := 5\<rparr>]
     [(blankItem 1)\<lparr>qty := 2, tp := 100, discPercent := 10, gstPercent := 5, mrp := 250\<rparr>]"
    by (simp add: blankItem_def)
  from h mrp_no_influence[OF h] show ?thesis by blast
qed

end
